theory Spec2Isabelle
  imports Complex_Main
begin

section \<open>Data model (types.ts)\<close>

text \<open>
  The enums and the segment interface of \<^verbatim>\<open>types.ts\<close>. Coordinates and scores are
  JavaScript numbers that only ever hold integers here (they start as integer literals
  and change by \<open>\<plusminus>1\<close> or come from \<^verbatim>\<open>Math.floor\<close>), so they are \<open>int\<close>.
\<close>

datatype Direction = UP | DOWN | LEFT | RIGHT

datatype GameStatus = IDLE | PLAYING | PAUSED | GAME_OVER

record SnakeSegment =
  x :: int
  y :: int

datatype ControlAction = START | STOP | RESTART | PAUSE | Dir Direction

section \<open>The SnakeGame component\<close>

text \<open>
  The component keeps four pieces of state: the \<^verbatim>\<open>snake\<close>, the \<^verbatim>\<open>food\<close>, the committed
  direction \<^verbatim>\<open>currentDir\<close> (all \<^verbatim>\<open>useState\<close>) and the staged direction
  \<^verbatim>\<open>requestedDirRef.current\<close>. Its props are \<^verbatim>\<open>status\<close>, \<^verbatim>\<open>direction\<close> and the two
  callbacks \<^verbatim>\<open>onGameOver\<close> and \<^verbatim>\<open>onScoreUpdate\<close>; a call of a callback is a value of
  type \<open>callback\<close>, returned in call order.
\<close>

record SnakeGame =
  snake :: "SnakeSegment list"
  food :: SnakeSegment
  currentDir :: Direction
  requestedDir :: Direction

datatype callback = OnGameOver int | OnScoreUpdate int

definition GRID_SIZE :: int where
  "GRID_SIZE = 20"

definition initialGame :: SnakeGame where
  "initialGame = \<lparr>snake = [\<lparr>x = 10, y = 10\<rparr>], food = \<lparr>x = 15, y = 15\<rparr>,
     currentDir = RIGHT, requestedDir = RIGHT\<rparr>"

text \<open>The test of the effect that syncs the \<^verbatim>\<open>direction\<close> prop to the ref.\<close>

definition isOpposite :: "Direction \<Rightarrow> Direction \<Rightarrow> bool" where
  "isOpposite direction cur =
     ((direction = UP \<and> cur = DOWN) \<or>
      (direction = DOWN \<and> cur = UP) \<or>
      (direction = LEFT \<and> cur = RIGHT) \<or>
      (direction = RIGHT \<and> cur = LEFT))"

definition syncDirEffect :: "Direction \<Rightarrow> SnakeGame \<Rightarrow> SnakeGame" where
  "syncDirEffect direction g =
     (if isOpposite direction (currentDir g) then g else g\<lparr>requestedDir := direction\<rparr>)"

text \<open>
  \<^verbatim>\<open>generateFood\<close> draws a cell and repeats while the cell is on the snake. The draws
  are a parameter: \<open>rnd i\<close> is the cell of the \<open>i\<close>-th iteration, that is the pair of
  values of \<^verbatim>\<open>Math.floor(Math.random() * GRID_SIZE)\<close>. The loop has no bound, so the
  function is partial: \<open>None\<close> is the loop that never ends.
\<close>

definition onSegment :: "SnakeSegment \<Rightarrow> SnakeSegment list \<Rightarrow> bool" where
  "onSegment c segs = list_ex (\<lambda>seg. x seg = x c \<and> y seg = y c) segs"

partial_function (option) generateFood ::
    "(nat \<Rightarrow> SnakeSegment) \<Rightarrow> nat \<Rightarrow> SnakeSegment list \<Rightarrow> SnakeSegment option" where
  "generateFood rnd i currentSnake =
     (let newFood = rnd i;
          isColliding = onSegment newFood currentSnake
      in if isColliding then generateFood rnd (Suc i) currentSnake else Some newFood)"

declare generateFood.simps [code]

text \<open>The reset effect: it acts only when the \<^verbatim>\<open>status\<close> prop is \<^verbatim>\<open>IDLE\<close>.\<close>

definition idleResetEffect :: "GameStatus \<Rightarrow> SnakeGame \<Rightarrow> SnakeGame \<times> callback list" where
  "idleResetEffect status g =
     (if status = IDLE
      then (g\<lparr>snake := [\<lparr>x = 10, y = 10\<rparr>], food := \<lparr>x = 15, y = 15\<rparr>,
               currentDir := RIGHT, requestedDir := RIGHT\<rparr>, [OnScoreUpdate 0])
      else (g, []))"

fun moveHead :: "Direction \<Rightarrow> SnakeSegment \<Rightarrow> SnakeSegment" where
  "moveHead UP head = head\<lparr>y := y head - 1\<rparr>"
| "moveHead DOWN head = head\<lparr>y := y head + 1\<rparr>"
| "moveHead LEFT head = head\<lparr>x := x head - 1\<rparr>"
| "moveHead RIGHT head = head\<lparr>x := x head + 1\<rparr>"

text \<open>
  The updater that the interval passes to \<^verbatim>\<open>setSnake\<close>: one tick. It returns the new
  component state and the callbacks it called. On an empty snake \<^verbatim>\<open>prevSnake[0]\<close> is
  \<^verbatim>\<open>undefined\<close>, the head's coordinates become \<^verbatim>\<open>NaN\<close>, every comparison is false,
  and the head is pushed and popped again: the snake stays empty and only the
  direction is committed.
\<close>

definition tickUpdate ::
    "(nat \<Rightarrow> SnakeSegment) \<Rightarrow> SnakeGame \<Rightarrow> (SnakeGame \<times> callback list) option" where
  "tickUpdate rnd g =
     (case snake g of
        [] \<Rightarrow> Some (g\<lparr>currentDir := requestedDir g\<rparr>, [])
      | h # rest \<Rightarrow>
          (let prevSnake = snake g;
               moveDir = requestedDir g;
               g1 = g\<lparr>currentDir := moveDir\<rparr>;
               head = moveHead moveDir h
           in if x head < 0 \<or> x head \<ge> GRID_SIZE \<or> y head < 0 \<or> y head \<ge> GRID_SIZE
              then Some (g1, [OnGameOver (int (length prevSnake) - 1)])
              else if onSegment head prevSnake
              then Some (g1, [OnGameOver (int (length prevSnake) - 1)])
              else (let newSnake = head # prevSnake
                    in if x head = x (food g) \<and> y head = y (food g)
                       then (case generateFood rnd 0 newSnake of
                               None \<Rightarrow> None
                             | Some f \<Rightarrow>
                                 Some (g1\<lparr>snake := newSnake, food := f\<rparr>,
                                       [OnScoreUpdate (int (length newSnake) - 1)]))
                       else Some (g1\<lparr>snake := butlast newSnake\<rparr>, []))))"

section \<open>The App component\<close>

record App =
  gameStatus :: GameStatus
  currentDirection :: Direction
  score :: int

definition initialApp :: App where
  "initialApp = \<lparr>gameStatus = IDLE, currentDirection = RIGHT, score = 0\<rparr>"

text \<open>
  \<^verbatim>\<open>handleControlAction\<close> writes the state through the setters and reads \<^verbatim>\<open>gameStatus\<close>
  from the render that created the handler. The service is given its handler once, by
  an effect without dependencies, so the status the handler sees is a parameter
  \<open>seen\<close> of the model and is not tied to the status of the state it writes. In the
  App as it is the handler is the one of the first render and sees \<^verbatim>\<open>IDLE\<close>
  (\<open>wired\<close> below).
\<close>

fun handleControlAction :: "GameStatus \<Rightarrow> ControlAction \<Rightarrow> App \<Rightarrow> App" where
  "handleControlAction seen (Dir d) a =
     (if seen = PLAYING then a\<lparr>currentDirection := d\<rparr> else a)"
| "handleControlAction seen START a =
     a\<lparr>gameStatus := PLAYING, score := 0, currentDirection := RIGHT\<rparr>"
| "handleControlAction seen RESTART a =
     a\<lparr>gameStatus := PLAYING, score := 0, currentDirection := RIGHT\<rparr>"
| "handleControlAction seen STOP a = a\<lparr>gameStatus := PAUSED\<rparr>"
| "handleControlAction seen PAUSE a = a\<lparr>gameStatus := PAUSED\<rparr>"

definition handleGameOver :: "int \<Rightarrow> App \<Rightarrow> App" where
  "handleGameOver finalScore a = a\<lparr>gameStatus := GAME_OVER, score := finalScore\<rparr>"

fun applyCallback :: "App \<Rightarrow> callback \<Rightarrow> App" where
  "applyCallback a (OnGameOver n) = handleGameOver n a"
| "applyCallback a (OnScoreUpdate n) = a\<lparr>score := n\<rparr>"

section \<open>The two components together\<close>

record sys =
  app :: App
  game :: SnakeGame

definition init :: sys where
  "init = \<lparr>app = initialApp, game = initialGame\<rparr>"

text \<open>
  After a state change React renders and runs the effects of \<^verbatim>\<open>SnakeGame\<close> in the order
  they are declared: the direction sync, then the reset. The reset sets \<^verbatim>\<open>currentDir\<close>,
  which is a dependency of the sync, so the sync runs once more after it. React skips
  an effect whose dependencies did not change; both effects give the same state when
  they run again on their own result (\<open>syncDirEffect_idem\<close>, \<open>idleResetEffect_idem\<close>,
  \<open>render_idem\<close>), so the model runs them after every event.
\<close>

definition render :: "sys \<Rightarrow> sys" where
  "render s =
     (let g1 = syncDirEffect (currentDirection (app s)) (game s);
          (g2, cbs) = idleResetEffect (gameStatus (app s)) g1;
          a2 = foldl applyCallback (app s) cbs;
          g3 = syncDirEffect (currentDirection a2) g2
      in \<lparr>app = a2, game = g3\<rparr>)"

text \<open>
  An event is a control action reaching the handler, with the status the handler
  sees, or the interval firing, with the draws \<^verbatim>\<open>generateFood\<close> would take. The
  interval exists only while the status is \<^verbatim>\<open>PLAYING\<close>. A step has no result when
  \<^verbatim>\<open>generateFood\<close> does not return, and neither has a run through such a step.
\<close>

datatype event = Action GameStatus ControlAction | Tick "nat \<Rightarrow> SnakeSegment"

fun step :: "event \<Rightarrow> sys \<Rightarrow> sys option" where
  "step (Action seen a) s = Some (render (s\<lparr>app := handleControlAction seen a (app s)\<rparr>))"
| "step (Tick rnd) s =
     (if gameStatus (app s) \<noteq> PLAYING then Some s
      else (case tickUpdate rnd (game s) of
              None \<Rightarrow> None
            | Some (g', cbs) \<Rightarrow> Some (render \<lparr>app = foldl applyCallback (app s) cbs, game = g'\<rparr>)))"

fun run :: "event list \<Rightarrow> sys \<Rightarrow> sys option" where
  "run [] s = Some s"
| "run (e # es) s = (case step e s of None \<Rightarrow> None | Some s' \<Rightarrow> run es s')"


section \<open>The realtime session manager (GeminiLiveService)\<close>

text \<open>
  The fields of the class that the teardown and the playback scheduling touch. Audio
  contexts, tracks and the session are external objects, held by a handle (a number);
  \<^verbatim>\<open>null\<close> is \<open>None\<close>. Times are the seconds of the output clock, taken as real
  numbers. A source node of the set \<^verbatim>\<open>sources\<close> is the pair of its start time and the
  duration of its buffer. What a method does to the outside (a callback of the host,
  a call on a track, a context or a source node) is returned as a list of effects, in
  call order.
\<close>

record GeminiLiveService =
  inputAudioContext :: "nat option"
  outputAudioContext :: "nat option"
  mediaStream :: "nat list option"
  nextStartTime :: real
  sources :: "(real \<times> real) list"
  session :: "nat option"

datatype effect =
    StatusChange bool
  | ErrorReport string
  | TrackStop nat
  | ContextClose nat
  | SourceStart real real

text \<open>The field initialisers of the class: the state before any \<^verbatim>\<open>connect()\<close>.\<close>

definition newService :: GeminiLiveService where
  "newService = \<lparr>inputAudioContext = None, outputAudioContext = None, mediaStream = None,
     nextStartTime = 0, sources = [], session = None\<rparr>"

definition stop :: "GeminiLiveService \<Rightarrow> GeminiLiveService \<times> effect list" where
  "stop svc =
     (svc\<lparr>inputAudioContext := None, outputAudioContext := None,
          mediaStream := None, session := None\<rparr>,
      [StatusChange False]
      @ (case mediaStream svc of None \<Rightarrow> [] | Some tracks \<Rightarrow> map TrackStop tracks)
      @ (case inputAudioContext svc of None \<Rightarrow> [] | Some c \<Rightarrow> [ContextClose c])
      @ (case outputAudioContext svc of None \<Rightarrow> [] | Some c \<Rightarrow> [ContextClose c]))"

text \<open>
  \<^verbatim>\<open>connect()\<close>: the two contexts are created first; \<^verbatim>\<open>getUserMedia\<close> then gives the
  tracks or rejects with a message, and a rejection is caught, reported and followed
  by \<^verbatim>\<open>stop()\<close>. The handles of the new objects are parameters. The callbacks of the
  session (open, message, close, error) fire after the call and are not part of it.
\<close>

definition connect ::
    "nat \<Rightarrow> nat \<Rightarrow> string + nat list \<Rightarrow> nat \<Rightarrow> GeminiLiveService
       \<Rightarrow> GeminiLiveService \<times> effect list" where
  "connect inCtx outCtx media sess svc =
     (let s1 = svc\<lparr>inputAudioContext := Some inCtx, outputAudioContext := Some outCtx\<rparr>
      in case media of
           Inl msg \<Rightarrow> (let (s2, es) = stop s1 in (s2, ErrorReport msg # es))
         | Inr tracks \<Rightarrow> (s1\<lparr>mediaStream := Some tracks, session := Some sess\<rparr>, []))"

text \<open>
  The audio branch of \<^verbatim>\<open>handleMessage\<close>. The helpers \<^verbatim>\<open>base64ToUint8Array\<close> and
  \<^verbatim>\<open>decodeAudioData\<close> live in \<^verbatim>\<open>audioUtils\<close>; what they do to the payload is a parameter:
  the first throws, the second throws, or the buffer is decoded and has a duration.
  \<open>now\<close> is the value of \<^verbatim>\<open>outputAudioContext.currentTime\<close> read on line 153. A throw
  is caught by the \<^verbatim>\<open>try\<close> and leaves what was assigned before it.
\<close>

datatype decodeOutcome = Base64Error | DecodeError | Decoded real

definition handleAudio ::
    "real \<Rightarrow> decodeOutcome option \<Rightarrow> GeminiLiveService \<Rightarrow> GeminiLiveService \<times> effect list" where
  "handleAudio now base64Audio svc =
     (case base64Audio of
        None \<Rightarrow> (svc, [])
      | Some outcome \<Rightarrow>
          (case outputAudioContext svc of
             None \<Rightarrow> (svc, [])
           | Some ctx \<Rightarrow>
               (case outcome of
                  Base64Error \<Rightarrow> (svc, [])
                | DecodeError \<Rightarrow> (svc\<lparr>nextStartTime := max (nextStartTime svc) now\<rparr>, [])
                | Decoded duration \<Rightarrow>
                    (let startAt = max (nextStartTime svc) now
                     in (svc\<lparr>nextStartTime := startAt + duration,
                             sources := sources svc @ [(startAt, duration)]\<rparr>,
                         [SourceStart startAt duration])))))"

text \<open>Messages handled one after the other, each with its clock reading.\<close>

fun handleAll ::
    "(real \<times> decodeOutcome option) list \<Rightarrow> GeminiLiveService
       \<Rightarrow> GeminiLiveService \<times> effect list" where
  "handleAll [] svc = (svc, [])"
| "handleAll (m # ms) svc =
     (let (svc1, es1) = handleAudio (fst m) (snd m) svc;
          (svc2, es2) = handleAll ms svc1
      in (svc2, es1 @ es2))"

text \<open>The calls \<^verbatim>\<open>source.start(t)\<close> among the effects, with the buffer's duration.\<close>

fun startsOf :: "effect list \<Rightarrow> (real \<times> real) list" where
  "startsOf [] = []"
| "startsOf (SourceStart t d # es) = (t, d) # startsOf es"
| "startsOf (e # es) = startsOf es"

section \<open>Invariants of the simulation\<close>

text \<open>The staged direction is never the reverse of the committed one.\<close>

definition dirInv :: "SnakeGame \<Rightarrow> bool" where
  "dirInv g = (\<not> isOpposite (requestedDir g) (currentDir g))"

text \<open>
  A cell of the grid: the negation of the wall test of the tick. The food is on the
  grid and on no segment of the snake.
\<close>

definition inGrid :: "SnakeSegment \<Rightarrow> bool" where
  "inGrid c = (0 \<le> x c \<and> x c < GRID_SIZE \<and> 0 \<le> y c \<and> y c < GRID_SIZE)"

definition foodInv :: "SnakeGame \<Rightarrow> bool" where
  "foodInv g = (inGrid (food g) \<and> \<not> onSegment (food g) (snake g))"


lemmas model_defs = init_def initialApp_def initialGame_def render_def syncDirEffect_def
  idleResetEffect_def isOpposite_def tickUpdate_def onSegment_def GRID_SIZE_def handleGameOver_def

section \<open>Effects and rendering\<close>

lemma syncDirEffect_idem: "syncDirEffect d (syncDirEffect d g) = syncDirEffect d g"
  by (simp add: syncDirEffect_def)

lemma idleResetEffect_idem:
  "idleResetEffect st (fst (idleResetEffect st g)) = idleResetEffect st g"
  by (simp add: idleResetEffect_def)

lemma isOpposite_cases:
  "isOpposite d c \<longleftrightarrow> (d, c) \<in> {(UP, DOWN), (DOWN, UP), (LEFT, RIGHT), (RIGHT, LEFT)}"
  by (auto simp: isOpposite_def)

lemma isOpposite_same: "\<not> isOpposite d d"
  by (cases d) (simp_all add: isOpposite_def)

lemma syncDirEffect_frame:
  "currentDir (syncDirEffect d g) = currentDir g"
  "snake (syncDirEffect d g) = snake g"
  "food (syncDirEffect d g) = food g"
  by (simp_all add: syncDirEffect_def)

lemma render_not_idle:
  assumes "gameStatus (app s) \<noteq> IDLE"
  shows "app (render s) = app s"
    and "game (render s) = syncDirEffect (currentDirection (app s)) (game s)"
  using assms by (simp_all add: render_def Let_def idleResetEffect_def syncDirEffect_idem)

lemma render_idem: "render (render s) = render s"
  by (cases "gameStatus (app s) = IDLE")
     (simp_all add: render_def Let_def idleResetEffect_def syncDirEffect_def)

lemma render_idle:
  assumes "gameStatus (app s) = IDLE"
  shows "snake (game (render s)) = [\<lparr>x = 10, y = 10\<rparr>]"
    and "food (game (render s)) = \<lparr>x = 15, y = 15\<rparr>"
    and "currentDir (game (render s)) = RIGHT"
    and "score (app (render s)) = 0"
    and "gameStatus (app (render s)) = IDLE"
  using assms by (simp_all add: render_def Let_def idleResetEffect_def syncDirEffect_frame)

section \<open>The staged direction never reverses the committed one\<close>


lemma syncDirEffect_dirInv: "dirInv g \<Longrightarrow> dirInv (syncDirEffect d g)"
  by (simp add: syncDirEffect_def dirInv_def)

lemma render_dirInv: "dirInv (game s) \<Longrightarrow> dirInv (game (render s))"
proof (cases "gameStatus (app s) = IDLE")
  case True
  assume "dirInv (game s)"
  have "dirInv (fst (idleResetEffect IDLE g))" for g
    by (simp add: idleResetEffect_def dirInv_def isOpposite_def)
  then show ?thesis using True
    by (simp add: render_def Let_def split: prod.splits)
       (metis syncDirEffect_dirInv fst_conv)
next
  case False
  assume "dirInv (game s)"
  then show ?thesis using False by (simp add: render_not_idle syncDirEffect_dirInv)
qed

lemma tickUpdate_dirs:
  "tickUpdate rnd g = Some (g', cbs) \<Longrightarrow>
     currentDir g' = requestedDir g \<and> requestedDir g' = requestedDir g"
  by (auto simp: tickUpdate_def Let_def split: list.splits if_splits option.splits)

lemma tickUpdate_callbacks:
  "tickUpdate rnd g = Some (g', cbs) \<Longrightarrow> gameStatus a \<noteq> IDLE \<Longrightarrow>
     gameStatus (foldl applyCallback a cbs) \<noteq> IDLE"
  by (auto simp: tickUpdate_def Let_def handleGameOver_def
      split: list.splits if_splits option.splits)

lemma step_Tick_playing:
  assumes "gameStatus (app s) = PLAYING" and "step (Tick rnd) s = Some s'"
  obtains g' cbs where "tickUpdate rnd (game s) = Some (g', cbs)"
    and "app s' = foldl applyCallback (app s) cbs"
    and "game s' = syncDirEffect (currentDirection (app s)) g'"
proof -
  from assms obtain g' cbs where tu: "tickUpdate rnd (game s) = Some (g', cbs)"
    and s': "s' = render \<lparr>app = foldl applyCallback (app s) cbs, game = g'\<rparr>"
    by (auto split: option.splits)
  have ni: "gameStatus (foldl applyCallback (app s) cbs) \<noteq> IDLE"
    using tickUpdate_callbacks[OF tu] assms(1) by simp
  have cd: "currentDirection (foldl applyCallback (app s) cbs) = currentDirection (app s)"
    using tu by (auto simp: tickUpdate_def Let_def handleGameOver_def
        split: list.splits if_splits option.splits)
  show thesis
    using that[OF tu] s' ni cd by (simp add: render_not_idle)
qed

lemma step_dirInv:
  assumes "dirInv (game s)" and "step e s = Some s'"
  shows "dirInv (game s')"
proof (cases e)
  case (Action seen a)
  with assms show ?thesis
    using render_dirInv[of "s\<lparr>app := handleControlAction seen a (app s)\<rparr>"] by auto
next
  case (Tick rnd)
  show ?thesis
  proof (cases "gameStatus (app s) = PLAYING")
    case False
    with Tick assms show ?thesis by simp
  next
    case True
    from assms(2) Tick have st: "step (Tick rnd) s = Some s'" by simp
    from step_Tick_playing[OF True st] obtain g' cbs
      where tu: "tickUpdate rnd (game s) = Some (g', cbs)"
        and g: "game s' = syncDirEffect (currentDirection (app s)) g'" by metis
    from tickUpdate_dirs[OF tu] have "dirInv g'"
      by (simp add: dirInv_def isOpposite_same)
    then show ?thesis by (simp add: g syncDirEffect_dirInv)
  qed
qed

lemma run_dirInv: "dirInv (game s) \<Longrightarrow> run es s = Some s' \<Longrightarrow> dirInv (game s')"
  by (induction es arbitrary: s) (auto split: option.splits dest: step_dirInv)

lemma init_dirInv: "dirInv (game init)"
  by (simp add: init_def initialGame_def dirInv_def isOpposite_def)

text \<open>
  Claim C1. Take any sequence of events from the initial state: control actions,
  whatever status their handler sees, and ticks. In the state \<open>s\<close> it leads to, a
  tick never commits the reverse of the committed direction:
  \<open>currentDir\<close> after the tick is not opposite to \<open>currentDir\<close> before it. While
  the status is \<^verbatim>\<open>PLAYING\<close> the direction committed is the staged one. A requested
  direction \<open>d\<close> is dropped exactly when it is opposite to the committed direction,
  and replaces the staged one otherwise, whatever the staged direction is.
\<close>

theorem anti_reversal:
  assumes "run es init = Some s" and "step (Tick rnd) s = Some s'"
  shows "\<not> isOpposite (currentDir (game s')) (currentDir (game s))
       \<and> (gameStatus (app s) = PLAYING \<longrightarrow> currentDir (game s') = requestedDir (game s))
       \<and> (\<forall>d. requestedDir (syncDirEffect d (game s)) =
               (if isOpposite d (currentDir (game s)) then requestedDir (game s) else d))"
proof -
  have inv: "dirInv (game s)"
    using run_dirInv[OF init_dirInv assms(1)] .
  have commit: "currentDir (game s') = requestedDir (game s)" if "gameStatus (app s) = PLAYING"
  proof -
    from step_Tick_playing[OF that assms(2)] obtain g' cbs
      where tu: "tickUpdate rnd (game s) = Some (g', cbs)"
        and g: "game s' = syncDirEffect (currentDirection (app s)) g'" by metis
    show ?thesis using tickUpdate_dirs[OF tu] by (simp add: g syncDirEffect_frame)
  qed
  have "\<not> isOpposite (currentDir (game s')) (currentDir (game s))"
  proof (cases "gameStatus (app s) = PLAYING")
    case True
    then show ?thesis using commit inv by (simp add: dirInv_def)
  next
    case False
    with assms(2) have "s' = s" by simp
    then show ?thesis by (simp add: isOpposite_same)
  qed
  moreover have "requestedDir (syncDirEffect d (game s)) =
      (if isOpposite d (currentDir (game s)) then requestedDir (game s) else d)" for d
    by (simp add: syncDirEffect_def)
  ultimately show ?thesis using commit by blast
qed


text \<open>
  The burst \<^verbatim>\<open>UP\<close>, \<^verbatim>\<open>DOWN\<close>, \<^verbatim>\<open>UP\<close> within one tick window, while the snake moves
  \<^verbatim>\<open>RIGHT\<close>: \<^verbatim>\<open>DOWN\<close> is staged although it reverses the staged \<^verbatim>\<open>UP\<close>, and the tick
  commits \<^verbatim>\<open>UP\<close>.
\<close>

theorem anti_reversal_witness:
  "run [Action IDLE START, Action PLAYING (Dir UP), Action PLAYING (Dir DOWN),
        Action PLAYING (Dir UP)] init
     = Some \<lparr>app = \<lparr>gameStatus = PLAYING, currentDirection = UP, score = 0\<rparr>,
             game = \<lparr>snake = [\<lparr>x = 10, y = 10\<rparr>], food = \<lparr>x = 15, y = 15\<rparr>,
                     currentDir = RIGHT, requestedDir = UP\<rparr>\<rparr>
   \<and> step (Tick (\<lambda>i. \<lparr>x = 0, y = 0\<rparr>))
        \<lparr>app = \<lparr>gameStatus = PLAYING, currentDirection = UP, score = 0\<rparr>,
         game = \<lparr>snake = [\<lparr>x = 10, y = 10\<rparr>], food = \<lparr>x = 15, y = 15\<rparr>,
                 currentDir = RIGHT, requestedDir = UP\<rparr>\<rparr>
     = Some \<lparr>app = \<lparr>gameStatus = PLAYING, currentDirection = UP, score = 0\<rparr>,
             game = \<lparr>snake = [\<lparr>x = 10, y = 9\<rparr>], food = \<lparr>x = 15, y = 15\<rparr>,
                     currentDir = UP, requestedDir = UP\<rparr>\<rparr>
   \<and> \<not> isOpposite UP RIGHT"
proof -
  have r: "run [Action IDLE START, Action PLAYING (Dir UP), Action PLAYING (Dir DOWN),
        Action PLAYING (Dir UP)] init
     = Some \<lparr>app = \<lparr>gameStatus = PLAYING, currentDirection = UP, score = 0\<rparr>,
             game = \<lparr>snake = [\<lparr>x = 10, y = 10\<rparr>], food = \<lparr>x = 15, y = 15\<rparr>,
                     currentDir = RIGHT, requestedDir = UP\<rparr>\<rparr>"
    by (simp add: model_defs)
  have t: "step (Tick (\<lambda>i. \<lparr>x = 0, y = 0\<rparr>))
        \<lparr>app = \<lparr>gameStatus = PLAYING, currentDirection = UP, score = 0\<rparr>,
         game = \<lparr>snake = [\<lparr>x = 10, y = 10\<rparr>], food = \<lparr>x = 15, y = 15\<rparr>,
                 currentDir = RIGHT, requestedDir = UP\<rparr>\<rparr>
     = Some \<lparr>app = \<lparr>gameStatus = PLAYING, currentDirection = UP, score = 0\<rparr>,
             game = \<lparr>snake = [\<lparr>x = 10, y = 9\<rparr>], food = \<lparr>x = 15, y = 15\<rparr>,
                     currentDir = UP, requestedDir = UP\<rparr>\<rparr>"
    by (simp add: model_defs)
  from anti_reversal[OF r t] r t show ?thesis by simp
qed

section \<open>Food generation\<close>

lemma onSegment_set: "onSegment c segs \<longleftrightarrow> (\<exists>seg \<in> set segs. x seg = x c \<and> y seg = y c)"
  by (simp add: onSegment_def list_ex_iff)

lemma onSegment_same_cell:
  "x c = x c' \<Longrightarrow> y c = y c' \<Longrightarrow> onSegment c segs = onSegment c' segs"
  by (simp add: onSegment_def)

lemma generateFood_skip:
  "(\<And>j. j < k \<Longrightarrow> onSegment (rnd (i + j)) segs) \<Longrightarrow>
     generateFood rnd i segs = generateFood rnd (i + k) segs"
proof (induction k arbitrary: i)
  case 0
  show ?case by simp
next
  case (Suc k)
  have c: "onSegment (rnd i) segs" using Suc.prems[of 0] by simp
  have "generateFood rnd i segs = generateFood rnd (Suc i) segs"
    by (subst generateFood.simps) (simp add: c)
  also have "\<dots> = generateFood rnd (Suc i + k) segs"
  proof (rule Suc.IH)
    fix j assume "j < k"
    then show "onSegment (rnd (Suc i + j)) segs" using Suc.prems[of "Suc j"] by simp
  qed
  finally show ?case by simp
qed

lemma generateFood_first:
  assumes "\<not> onSegment (rnd (i + k)) segs" and "\<And>j. j < k \<Longrightarrow> onSegment (rnd (i + j)) segs"
  shows "generateFood rnd i segs = Some (rnd (i + k))"
proof -
  have "generateFood rnd i segs = generateFood rnd (i + k) segs"
    using assms(2) by (rule generateFood_skip)
  also have "\<dots> = Some (rnd (i + k))"
    by (subst generateFood.simps) (simp add: assms(1))
  finally show ?thesis .
qed

lemma generateFood_returns:
  assumes "\<exists>k. \<not> onSegment (rnd (i + k)) segs"
  shows "\<exists>k. generateFood rnd i segs = Some (rnd (i + k)) \<and> \<not> onSegment (rnd (i + k)) segs"
proof -
  define k where "k = (LEAST k. \<not> onSegment (rnd (i + k)) segs)"
  have free: "\<not> onSegment (rnd (i + k)) segs"
    unfolding k_def using assms by (rule LeastI_ex)
  have "onSegment (rnd (i + j)) segs" if "j < k" for j
    using that not_less_Least unfolding k_def by blast
  with free have "generateFood rnd i segs = Some (rnd (i + k))"
    by (rule generateFood_first)
  with free show ?thesis by blast
qed

lemma generateFood_sound:
  assumes "generateFood rnd i segs = Some f"
  shows "\<not> onSegment f segs \<and> (\<exists>k. f = rnd (i + k))"
proof -
  let ?P = "\<lambda>r n ss c. \<not> onSegment c ss \<and> (\<exists>k. c = r (n + k))"
  show ?thesis
  proof (rule generateFood.raw_induct[where P = ?P, OF _ assms])
    fix gen r n ss c
    assume IH: "\<And>r' n' ss' c'. gen r' n' ss' = Some c' \<Longrightarrow> ?P r' n' ss' c'"
      and eq: "(let newFood = r n; isColliding = onSegment newFood ss
                in if isColliding then gen r (Suc n) ss else Some newFood) = Some c"
    show "?P r n ss c"
    proof (cases "onSegment (r n) ss")
      case True
      with eq have "gen r (Suc n) ss = Some c" by (simp add: Let_def)
      from IH[OF this] obtain k where f: "\<not> onSegment c ss" and "c = r (Suc n + k)" by blast
      then have "c = r (n + Suc k)" by simp
      with f show ?thesis by blast
    next
      case False
      with eq have c: "c = r (n + 0)" by (simp add: Let_def)
      then have "\<exists>k. c = r (n + k)" by (rule exI)
      with False c show ?thesis by simp
    qed
  qed
qed

text \<open>
  Claim C7. Whatever snake is passed to \<^verbatim>\<open>generateFood\<close> and whatever the draws are, a
  cell it returns is on no segment of that snake. It does return when some draw from
  the current one on is off the snake. When every draw is on the snake, as on a full
  grid, the loop never ends and nothing is returned.
\<close>

theorem food_off_snake:
  "(generateFood rnd i segs = Some f \<longrightarrow> (\<forall>seg \<in> set segs. \<not> (x seg = x f \<and> y seg = y f)))
   \<and> ((\<exists>k. \<not> onSegment (rnd (i + k)) segs) \<longrightarrow> (\<exists>f'. generateFood rnd i segs = Some f'))"
  using generateFood_sound[of rnd i segs f] generateFood_returns[of rnd i segs]
  by (auto simp: onSegment_set)

text \<open>
  The first draw is the head's cell and is rejected; the second one is returned.
\<close>

theorem food_off_snake_witness:
  "generateFood (\<lambda>i. if i = 0 then \<lparr>x = 10, y = 10\<rparr> else \<lparr>x = 3, y = 4\<rparr>) 0
      [\<lparr>x = 10, y = 10\<rparr>, \<lparr>x = 9, y = 10\<rparr>] = Some \<lparr>x = 3, y = 4\<rparr>
   \<and> \<not> onSegment \<lparr>x = 3, y = 4\<rparr> [\<lparr>x = 10, y = 10\<rparr>, \<lparr>x = 9, y = 10\<rparr>]"
proof -
  have g: "generateFood (\<lambda>i. if i = 0 then \<lparr>x = 10, y = 10\<rparr> else \<lparr>x = 3, y = 4\<rparr>) 0
      [\<lparr>x = 10, y = 10\<rparr>, \<lparr>x = 9, y = 10\<rparr>] = Some \<lparr>x = 3, y = 4\<rparr>"
    by (subst generateFood.simps, simp add: onSegment_def, subst generateFood.simps,
        simp add: onSegment_def)
  from food_off_snake[of "\<lambda>i. if i = 0 then \<lparr>x = 10, y = 10\<rparr> else \<lparr>x = 3, y = 4\<rparr>" 0
      "[\<lparr>x = 10, y = 10\<rparr>, \<lparr>x = 9, y = 10\<rparr>]" "\<lparr>x = 3, y = 4\<rparr>"] g
  show ?thesis by (simp add: onSegment_set)
qed

section \<open>One tick\<close>

lemma tickUpdate_collide:
  assumes "snake g = h # rest" and "head = moveHead (requestedDir g) h"
    and "x head < 0 \<or> GRID_SIZE \<le> x head \<or> y head < 0 \<or> GRID_SIZE \<le> y head
         \<or> onSegment head (snake g)"
  shows "tickUpdate rnd g =
           Some (g\<lparr>currentDir := requestedDir g\<rparr>, [OnGameOver (int (length (snake g)) - 1)])"
  using assms by (auto simp: tickUpdate_def Let_def)

lemma tickUpdate_eat:
  assumes "snake g = h # rest" and "head = moveHead (requestedDir g) h"
    and "0 \<le> x head" "x head < GRID_SIZE" "0 \<le> y head" "y head < GRID_SIZE"
    and "\<not> onSegment head (snake g)"
    and "x head = x (food g)" "y head = y (food g)"
    and "generateFood rnd 0 (head # snake g) = Some f"
  shows "tickUpdate rnd g =
           Some (g\<lparr>currentDir := requestedDir g, snake := head # snake g, food := f\<rparr>,
                 [OnScoreUpdate (int (length (head # snake g)) - 1)])"
  using assms by (simp add: tickUpdate_def Let_def)

lemma tickUpdate_move:
  assumes "snake g = h # rest" and "head = moveHead (requestedDir g) h"
    and "0 \<le> x head" "x head < GRID_SIZE" "0 \<le> y head" "y head < GRID_SIZE"
    and "\<not> onSegment head (snake g)"
    and "\<not> (x head = x (food g) \<and> y head = y (food g))"
  shows "tickUpdate rnd g =
           Some (g\<lparr>currentDir := requestedDir g, snake := head # butlast (snake g)\<rparr>, [])"
  using assms by (auto simp: tickUpdate_def Let_def)

lemma step_Tick_result:
  assumes "gameStatus (app s) = PLAYING" and "tickUpdate rnd (game s) = Some (g', cbs)"
  shows "step (Tick rnd) s =
           Some (render \<lparr>app = foldl applyCallback (app s) cbs, game = g'\<rparr>)"
  using assms by simp

lemma step_Tick_frame:
  assumes "gameStatus (app s) = PLAYING" and "tickUpdate rnd (game s) = Some (g', cbs)"
  shows "\<exists>s'. step (Tick rnd) s = Some s' \<and> app s' = foldl applyCallback (app s) cbs
           \<and> snake (game s') = snake g' \<and> food (game s') = food g'
           \<and> currentDir (game s') = currentDir g'"
proof -
  have "gameStatus (foldl applyCallback (app s) cbs) \<noteq> IDLE"
    using tickUpdate_callbacks[OF assms(2)] assms(1) by simp
  then show ?thesis
    using step_Tick_result[OF assms] by (simp add: render_not_idle syncDirEffect_frame)
qed

text \<open>
  Claim C5. A tick while the status is \<^verbatim>\<open>PLAYING\<close>, the new head being the old head
  moved one cell in the direction committed at this tick. When the new head is outside
  the 20\<times>20 grid or on a segment of the snake, the updater calls \<^verbatim>\<open>onGameOver\<close> with the
  number of segments minus 1 and nothing else, and returns the snake it was given; in
  the App the status becomes \<^verbatim>\<open>GAME_OVER\<close> and the score that number.
\<close>

theorem tick_game_over:
  assumes "gameStatus (app s) = PLAYING" and "snake (game s) = h # rest"
    and "head = moveHead (requestedDir (game s)) h"
    and "x head < 0 \<or> GRID_SIZE \<le> x head \<or> y head < 0 \<or> GRID_SIZE \<le> y head
         \<or> onSegment head (snake (game s))"
  shows "(\<exists>g'. tickUpdate rnd (game s) =
                 Some (g', [OnGameOver (int (length (snake (game s))) - 1)])
              \<and> snake g' = snake (game s))
       \<and> (\<exists>s'. step (Tick rnd) s = Some s'
              \<and> snake (game s') = snake (game s)
              \<and> gameStatus (app s') = GAME_OVER
              \<and> score (app s') = int (length (snake (game s))) - 1)"
proof -
  let ?g' = "(game s)\<lparr>currentDir := requestedDir (game s)\<rparr>"
  have tu: "tickUpdate rnd (game s) =
      Some (?g', [OnGameOver (int (length (snake (game s))) - 1)])"
    using assms(2-4) by (rule tickUpdate_collide)
  from step_Tick_frame[OF assms(1) tu] obtain s' where st: "step (Tick rnd) s = Some s'"
    and a: "app s' = foldl applyCallback (app s) [OnGameOver (int (length (snake (game s))) - 1)]"
    and sn: "snake (game s') = snake ?g'" by blast
  have 1: "\<exists>g'. tickUpdate rnd (game s) =
                 Some (g', [OnGameOver (int (length (snake (game s))) - 1)])
              \<and> snake g' = snake (game s)"
    using tu by simp
  have 2: "\<exists>s'. step (Tick rnd) s = Some s'
              \<and> snake (game s') = snake (game s)
              \<and> gameStatus (app s') = GAME_OVER
              \<and> score (app s') = int (length (snake (game s))) - 1"
    using st a sn by (simp add: handleGameOver_def)
  from 1 2 show ?thesis by blast
qed

text \<open>
  The snake at (19,10) heading \<^verbatim>\<open>RIGHT\<close>: the head would move to (20,10).
\<close>

theorem tick_game_over_witness:
  "gameStatus (app \<lparr>app = \<lparr>gameStatus = PLAYING, currentDirection = RIGHT, score = 0\<rparr>,
         game = \<lparr>snake = [\<lparr>x = 19, y = 10\<rparr>], food = \<lparr>x = 15, y = 15\<rparr>,
                 currentDir = RIGHT, requestedDir = RIGHT\<rparr>\<rparr>) = PLAYING
   \<and> GRID_SIZE \<le> x (moveHead RIGHT \<lparr>x = 19, y = 10\<rparr>)
   \<and> step (Tick (\<lambda>i. \<lparr>x = 0, y = 0\<rparr>))
        \<lparr>app = \<lparr>gameStatus = PLAYING, currentDirection = RIGHT, score = 0\<rparr>,
         game = \<lparr>snake = [\<lparr>x = 19, y = 10\<rparr>], food = \<lparr>x = 15, y = 15\<rparr>,
                 currentDir = RIGHT, requestedDir = RIGHT\<rparr>\<rparr>
     = Some \<lparr>app = \<lparr>gameStatus = GAME_OVER, currentDirection = RIGHT, score = 0\<rparr>,
             game = \<lparr>snake = [\<lparr>x = 19, y = 10\<rparr>], food = \<lparr>x = 15, y = 15\<rparr>,
                     currentDir = RIGHT, requestedDir = RIGHT\<rparr>\<rparr>"
proof -
  let ?s = "\<lparr>app = \<lparr>gameStatus = PLAYING, currentDirection = RIGHT, score = 0\<rparr>,
         game = \<lparr>snake = [\<lparr>x = 19, y = 10\<rparr>], food = \<lparr>x = 15, y = 15\<rparr>,
                 currentDir = RIGHT, requestedDir = RIGHT\<rparr>\<rparr>"
  have p: "gameStatus (app ?s) = PLAYING" by simp
  have sn: "snake (game ?s) = \<lparr>x = 19, y = 10\<rparr> # []" by simp
  have hd: "moveHead RIGHT \<lparr>x = 19, y = 10\<rparr> = moveHead (requestedDir (game ?s)) \<lparr>x = 19, y = 10\<rparr>"
    by simp
  have out: "GRID_SIZE \<le> x (moveHead RIGHT \<lparr>x = 19, y = 10\<rparr>)" by (simp add: GRID_SIZE_def)
  then have c: "x (moveHead RIGHT \<lparr>x = 19, y = 10\<rparr>) < 0
      \<or> GRID_SIZE \<le> x (moveHead RIGHT \<lparr>x = 19, y = 10\<rparr>)
      \<or> y (moveHead RIGHT \<lparr>x = 19, y = 10\<rparr>) < 0
      \<or> GRID_SIZE \<le> y (moveHead RIGHT \<lparr>x = 19, y = 10\<rparr>)
      \<or> onSegment (moveHead RIGHT \<lparr>x = 19, y = 10\<rparr>) (snake (game ?s))" by blast
  from tick_game_over[OF p sn hd c, of "\<lambda>i. \<lparr>x = 0, y = 0\<rparr>"] p out
  show ?thesis by (simp add: model_defs)
qed

text \<open>
  Claim C10. The self collision test runs on the snake before the tail is removed.
  When the new head is on the cell of the last segment, the tick ends the game and
  leaves the snake as it was, whether or not the food is there. Had the tail been
  dropped first, the head would have been free: if no other segment shares the
  tail's cell, the new head is on no segment of the snake without its last one.
\<close>

theorem tail_collision:
  assumes "gameStatus (app s) = PLAYING" and "snake (game s) = h # rest"
    and "head = moveHead (requestedDir (game s)) h"
    and "x head = x (last (snake (game s)))" and "y head = y (last (snake (game s)))"
  shows "(\<exists>g'. tickUpdate rnd (game s) =
                 Some (g', [OnGameOver (int (length (snake (game s))) - 1)])
              \<and> snake g' = snake (game s))
       \<and> (\<exists>s'. step (Tick rnd) s = Some s' \<and> gameStatus (app s') = GAME_OVER
              \<and> snake (game s') = snake (game s))
       \<and> (\<not> onSegment (last (snake (game s))) (butlast (snake (game s)))
            \<longrightarrow> \<not> onSegment head (butlast (snake (game s))))"
proof -
  let ?g' = "(game s)\<lparr>currentDir := requestedDir (game s)\<rparr>"
  have "last (snake (game s)) \<in> set (snake (game s))"
    using assms(2) by simp
  then have "onSegment head (snake (game s))"
    using assms(4,5) by (auto simp: onSegment_set)
  then have tu: "tickUpdate rnd (game s) =
      Some (?g', [OnGameOver (int (length (snake (game s))) - 1)])"
    using tickUpdate_collide[OF assms(2,3)] by blast
  have "onSegment head (butlast (snake (game s)))
      = onSegment (last (snake (game s))) (butlast (snake (game s)))"
    using assms(4,5) by (rule onSegment_same_cell)
  then have 3: "\<not> onSegment (last (snake (game s))) (butlast (snake (game s)))
            \<longrightarrow> \<not> onSegment head (butlast (snake (game s)))" by simp
  from step_Tick_frame[OF assms(1) tu] obtain s' where st: "step (Tick rnd) s = Some s'"
    and a: "app s' = foldl applyCallback (app s) [OnGameOver (int (length (snake (game s))) - 1)]"
    and sn: "snake (game s') = snake ?g'" by blast
  have 1: "\<exists>g'. tickUpdate rnd (game s) =
                 Some (g', [OnGameOver (int (length (snake (game s))) - 1)])
              \<and> snake g' = snake (game s)"
    using tu by simp
  have 2: "\<exists>s'. step (Tick rnd) s = Some s' \<and> gameStatus (app s') = GAME_OVER
              \<and> snake (game s') = snake (game s)"
    using st a sn by (simp add: handleGameOver_def)
  from 1 2 3 show ?thesis by blast
qed

text \<open>
  Four segments around a 2\<times>2 block, the head turning into the cell of the tail.
\<close>

theorem tail_collision_witness:
  "step (Tick (\<lambda>i. \<lparr>x = 0, y = 0\<rparr>))
        \<lparr>app = \<lparr>gameStatus = PLAYING, currentDirection = RIGHT, score = 3\<rparr>,
         game = \<lparr>snake = [\<lparr>x = 5, y = 5\<rparr>, \<lparr>x = 5, y = 6\<rparr>, \<lparr>x = 6, y = 6\<rparr>, \<lparr>x = 6, y = 5\<rparr>],
                 food = \<lparr>x = 15, y = 15\<rparr>, currentDir = UP, requestedDir = RIGHT\<rparr>\<rparr>
     = Some \<lparr>app = \<lparr>gameStatus = GAME_OVER, currentDirection = RIGHT, score = 3\<rparr>,
             game = \<lparr>snake = [\<lparr>x = 5, y = 5\<rparr>, \<lparr>x = 5, y = 6\<rparr>, \<lparr>x = 6, y = 6\<rparr>, \<lparr>x = 6, y = 5\<rparr>],
                     food = \<lparr>x = 15, y = 15\<rparr>, currentDir = RIGHT, requestedDir = RIGHT\<rparr>\<rparr>
   \<and> moveHead RIGHT \<lparr>x = 5, y = 5\<rparr> = last [\<lparr>x = 5, y = 5\<rparr>, \<lparr>x = 5, y = 6\<rparr>, \<lparr>x = 6, y = 6\<rparr>, \<lparr>x = 6, y = 5\<rparr>]
   \<and> \<not> onSegment (moveHead RIGHT \<lparr>x = 5, y = 5\<rparr>) (butlast [\<lparr>x = 5, y = 5\<rparr>, \<lparr>x = 5, y = 6\<rparr>, \<lparr>x = 6, y = 6\<rparr>, \<lparr>x = 6, y = 5\<rparr>])"
proof -
  let ?s = "\<lparr>app = \<lparr>gameStatus = PLAYING, currentDirection = RIGHT, score = 3\<rparr>,
         game = \<lparr>snake = [\<lparr>x = 5, y = 5\<rparr>, \<lparr>x = 5, y = 6\<rparr>, \<lparr>x = 6, y = 6\<rparr>, \<lparr>x = 6, y = 5\<rparr>],
                 food = \<lparr>x = 15, y = 15\<rparr>, currentDir = UP, requestedDir = RIGHT\<rparr>\<rparr>"
  have p: "gameStatus (app ?s) = PLAYING" by simp
  have sn: "snake (game ?s) = \<lparr>x = 5, y = 5\<rparr> # [\<lparr>x = 5, y = 6\<rparr>, \<lparr>x = 6, y = 6\<rparr>, \<lparr>x = 6, y = 5\<rparr>]" by simp
  have hd: "moveHead RIGHT \<lparr>x = 5, y = 5\<rparr> = moveHead (requestedDir (game ?s)) \<lparr>x = 5, y = 5\<rparr>"
    by simp
  have ex: "x (moveHead RIGHT \<lparr>x = 5, y = 5\<rparr>) = x (last (snake (game ?s)))" by simp
  have ey: "y (moveHead RIGHT \<lparr>x = 5, y = 5\<rparr>) = y (last (snake (game ?s)))" by simp
  from tail_collision[OF p sn hd ex ey, of "\<lambda>i. \<lparr>x = 0, y = 0\<rparr>"]
  show ?thesis by (simp add: model_defs)
qed

lemma onSegment_butlast: "onSegment c (butlast segs) \<Longrightarrow> onSegment c segs"
  by (auto simp: onSegment_set dest: in_set_butlastD)

lemma onSegment_Cons:
  "onSegment c (seg # segs) \<longleftrightarrow> (x seg = x c \<and> y seg = y c) \<or> onSegment c segs"
  by (simp add: onSegment_def)

lemma tickUpdate_foodInv:
  assumes "foodInv g" and "\<And>i. inGrid (rnd i)" and "tickUpdate rnd g = Some (g', cbs)"
  shows "foodInv g'"
proof (cases "snake g")
  case Nil
  with assms show ?thesis by (auto simp: tickUpdate_def foodInv_def)
next
  case (Cons h rest)
  define head where "head = moveHead (requestedDir g) h"
  consider (collide) "x head < 0 \<or> GRID_SIZE \<le> x head \<or> y head < 0 \<or> GRID_SIZE \<le> y head
         \<or> onSegment head (snake g)"
    | (eat) "0 \<le> x head" "x head < GRID_SIZE" "0 \<le> y head" "y head < GRID_SIZE"
        "\<not> onSegment head (snake g)" "x head = x (food g)" "y head = y (food g)"
    | (move) "0 \<le> x head" "x head < GRID_SIZE" "0 \<le> y head" "y head < GRID_SIZE"
        "\<not> onSegment head (snake g)" "\<not> (x head = x (food g) \<and> y head = y (food g))"
    by linarith
  then show ?thesis
  proof cases
    case collide
    from tickUpdate_collide[OF Cons head_def collide, of rnd] assms(1,3) show ?thesis
      by (auto simp: foodInv_def)
  next
    case eat
    from assms(3) obtain f where f: "generateFood rnd 0 (head # snake g) = Some f"
      using Cons eat by (auto simp: tickUpdate_def Let_def head_def split: option.splits)
    from generateFood_sound[OF f] assms(2) have "inGrid f" "\<not> onSegment f (head # snake g)"
      by auto
    with tickUpdate_eat[OF Cons head_def eat f] assms(3) show ?thesis
      by (auto simp: foodInv_def)
  next
    case move
    have "\<not> onSegment (food g) (head # butlast (snake g))"
      using move(6) assms(1) onSegment_butlast[of "food g" "snake g"]
      by (auto simp: onSegment_Cons foodInv_def)
    with tickUpdate_move[OF Cons head_def move, of rnd] assms(1,3) show ?thesis
      by (auto simp: foodInv_def)
  qed
qed

lemma render_foodInv: "foodInv (game s) \<Longrightarrow> foodInv (game (render s))"
proof (cases "gameStatus (app s) = IDLE")
  case True
  then show ?thesis
    by (simp add: foodInv_def render_idle inGrid_def GRID_SIZE_def onSegment_def)
next
  case False
  assume "foodInv (game s)"
  with False show ?thesis
    by (simp add: foodInv_def render_not_idle syncDirEffect_frame)
qed

lemma step_foodInv:
  assumes "foodInv (game s)" and "\<And>rnd i. e = Tick rnd \<Longrightarrow> inGrid (rnd i)"
    and "step e s = Some s'"
  shows "foodInv (game s')"
proof (cases e)
  case (Action seen a)
  with assms(1,3) show ?thesis
    using render_foodInv[of "s\<lparr>app := handleControlAction seen a (app s)\<rparr>"] by auto
next
  case (Tick rnd)
  show ?thesis
  proof (cases "gameStatus (app s) = PLAYING")
    case False
    with Tick assms(1,3) show ?thesis by simp
  next
    case True
    from assms(3) Tick have st: "step (Tick rnd) s = Some s'" by simp
    from step_Tick_playing[OF True st] obtain g' cbs
      where tu: "tickUpdate rnd (game s) = Some (g', cbs)"
        and g: "game s' = syncDirEffect (currentDirection (app s)) g'" by metis
    have "foodInv g'"
      using assms(1) assms(2)[OF Tick] tu by (rule tickUpdate_foodInv)
    then show ?thesis by (simp add: g foodInv_def syncDirEffect_frame)
  qed
qed

lemma run_foodInv:
  assumes "foodInv (game s)" and "\<And>rnd i. Tick rnd \<in> set es \<Longrightarrow> inGrid (rnd i)"
    and "run es s = Some s'"
  shows "foodInv (game s')"
  using assms
proof (induction es arbitrary: s)
  case Nil
  then show ?case by simp
next
  case (Cons e es)
  from Cons.prems(3) obtain s1 where e: "step e s = Some s1" and r: "run es s1 = Some s'"
    by (auto split: option.splits)
  have "foodInv (game s1)"
    using Cons.prems(1) _ e by (rule step_foodInv) (simp add: Cons.prems(2))
  then show ?case using _ r by (rule Cons.IH) (simp add: Cons.prems(2))
qed

lemma init_foodInv: "foodInv (game init)"
  by (simp add: foodInv_def init_def initialGame_def inGrid_def GRID_SIZE_def onSegment_def)

text \<open>
  Claim C6. A tick while the status is \<^verbatim>\<open>PLAYING\<close>, on a snake with a head. First part:
  the food is on the grid and off the snake, as in every state the game reaches
  (\<open>run_foodInv\<close>), the new head is on the food, and some draw is off the grown snake.
  Then the new head is prepended and the tail kept, so the snake is one longer; the
  updater reports the new length minus 1, which is one more than the old length
  minus 1, and the App's score becomes that value; the new food is on no segment of
  the new snake. Second part: the new head is on the grid, off the snake and off the
  food. Then the head is prepended and the last segment dropped, the length, the food
  and the App's state stay as they were.
\<close>

theorem tick_food:
  assumes "gameStatus (app s) = PLAYING" and "snake (game s) = h # rest"
    and "head = moveHead (requestedDir (game s)) h"
  shows "(foodInv (game s) \<and> x head = x (food (game s)) \<and> y head = y (food (game s))
           \<and> (\<exists>k. \<not> onSegment (rnd k) (head # snake (game s)))
          \<longrightarrow> (\<exists>g' s'. tickUpdate rnd (game s) =
                         Some (g', [OnScoreUpdate (int (length (snake g')) - 1)])
                \<and> step (Tick rnd) s = Some s'
                \<and> snake (game s') = head # snake (game s)
                \<and> length (snake (game s')) = length (snake (game s)) + 1
                \<and> score (app s') = int (length (snake (game s'))) - 1
                \<and> score (app s') = (int (length (snake (game s))) - 1) + 1
                \<and> \<not> onSegment (food (game s')) (snake (game s'))))
       \<and> (0 \<le> x head \<and> x head < GRID_SIZE \<and> 0 \<le> y head \<and> y head < GRID_SIZE
           \<and> \<not> onSegment head (snake (game s))
           \<and> \<not> (x head = x (food (game s)) \<and> y head = y (food (game s)))
          \<longrightarrow> (\<exists>s'. step (Tick rnd) s = Some s'
                \<and> snake (game s') = head # butlast (snake (game s))
                \<and> length (snake (game s')) = length (snake (game s))
                \<and> food (game s') = food (game s)
                \<and> app s' = app s))"
proof (intro conjI impI)
  assume a: "foodInv (game s) \<and> x head = x (food (game s)) \<and> y head = y (food (game s))
           \<and> (\<exists>k. \<not> onSegment (rnd k) (head # snake (game s)))"
  then have grid: "0 \<le> x head" "x head < GRID_SIZE" "0 \<le> y head" "y head < GRID_SIZE"
    by (simp_all add: foodInv_def inGrid_def)
  have free: "\<not> onSegment head (snake (game s))"
    using a onSegment_same_cell[of head "food (game s)" "snake (game s)"]
    by (simp add: foodInv_def)
  from a have "\<exists>k. \<not> onSegment (rnd (0 + k)) (head # snake (game s))" by simp
  from generateFood_returns[OF this] obtain f
    where f: "generateFood rnd 0 (head # snake (game s)) = Some f"
      and ff: "\<not> onSegment f (head # snake (game s))" by auto
  let ?g' = "(game s)\<lparr>currentDir := requestedDir (game s), snake := head # snake (game s), food := f\<rparr>"
  have tu: "tickUpdate rnd (game s) =
      Some (?g', [OnScoreUpdate (int (length (head # snake (game s))) - 1)])"
    using assms(2,3) grid free _ _ f by (rule tickUpdate_eat) (simp_all add: a)
  from step_Tick_frame[OF assms(1) tu] obtain s' where st: "step (Tick rnd) s = Some s'"
    and ap: "app s' = foldl applyCallback (app s) [OnScoreUpdate (int (length (head # snake (game s))) - 1)]"
    and sn: "snake (game s') = snake ?g'" and fo: "food (game s') = food ?g'" by blast
  have "tickUpdate rnd (game s) = Some (?g', [OnScoreUpdate (int (length (snake ?g')) - 1)])
      \<and> step (Tick rnd) s = Some s'
      \<and> snake (game s') = head # snake (game s)
      \<and> length (snake (game s')) = length (snake (game s)) + 1
      \<and> score (app s') = int (length (snake (game s'))) - 1
      \<and> score (app s') = (int (length (snake (game s))) - 1) + 1
      \<and> \<not> onSegment (food (game s')) (snake (game s'))"
    using tu st ap sn fo ff by simp
  then show "\<exists>g' s'. tickUpdate rnd (game s) =
                         Some (g', [OnScoreUpdate (int (length (snake g')) - 1)])
                \<and> step (Tick rnd) s = Some s'
                \<and> snake (game s') = head # snake (game s)
                \<and> length (snake (game s')) = length (snake (game s)) + 1
                \<and> score (app s') = int (length (snake (game s'))) - 1
                \<and> score (app s') = (int (length (snake (game s))) - 1) + 1
                \<and> \<not> onSegment (food (game s')) (snake (game s'))" by blast
next
  assume a: "0 \<le> x head \<and> x head < GRID_SIZE \<and> 0 \<le> y head \<and> y head < GRID_SIZE
           \<and> \<not> onSegment head (snake (game s))
           \<and> \<not> (x head = x (food (game s)) \<and> y head = y (food (game s)))"
  let ?g' = "(game s)\<lparr>currentDir := requestedDir (game s), snake := head # butlast (snake (game s))\<rparr>"
  have tu: "tickUpdate rnd (game s) = Some (?g', [])"
    using assms(2,3) by (rule tickUpdate_move) (simp_all add: a)
  from step_Tick_frame[OF assms(1) tu] obtain s' where st: "step (Tick rnd) s = Some s'"
    and ap: "app s' = foldl applyCallback (app s) []"
    and sn: "snake (game s') = snake ?g'" and fo: "food (game s') = food ?g'" by blast
  have "step (Tick rnd) s = Some s'
      \<and> snake (game s') = head # butlast (snake (game s))
      \<and> length (snake (game s')) = length (snake (game s))
      \<and> food (game s') = food (game s)
      \<and> app s' = app s"
    using st ap sn fo assms(2) by simp
  then show "\<exists>s'. step (Tick rnd) s = Some s'
                \<and> snake (game s') = head # butlast (snake (game s))
                \<and> length (snake (game s')) = length (snake (game s))
                \<and> food (game s') = food (game s)
                \<and> app s' = app s" by blast
qed

text \<open>
  The head at (14,15) heading \<^verbatim>\<open>RIGHT\<close> with the food at (15,15): the snake grows, the
  score goes from 0 to 1, and the first draw, the head's own cell, is rejected. The
  tick after it moves without growing.
\<close>

theorem tick_food_witness:
  "step (Tick (\<lambda>i. if i = 0 then \<lparr>x = 15, y = 15\<rparr> else \<lparr>x = 3, y = 4\<rparr>))
        \<lparr>app = \<lparr>gameStatus = PLAYING, currentDirection = RIGHT, score = 0\<rparr>,
         game = \<lparr>snake = [\<lparr>x = 14, y = 15\<rparr>], food = \<lparr>x = 15, y = 15\<rparr>,
                 currentDir = RIGHT, requestedDir = RIGHT\<rparr>\<rparr>
     = Some \<lparr>app = \<lparr>gameStatus = PLAYING, currentDirection = RIGHT, score = 1\<rparr>,
             game = \<lparr>snake = [\<lparr>x = 15, y = 15\<rparr>, \<lparr>x = 14, y = 15\<rparr>], food = \<lparr>x = 3, y = 4\<rparr>,
                     currentDir = RIGHT, requestedDir = RIGHT\<rparr>\<rparr>
   \<and> step (Tick (\<lambda>i. \<lparr>x = 3, y = 4\<rparr>))
        \<lparr>app = \<lparr>gameStatus = PLAYING, currentDirection = RIGHT, score = 1\<rparr>,
         game = \<lparr>snake = [\<lparr>x = 15, y = 15\<rparr>, \<lparr>x = 14, y = 15\<rparr>], food = \<lparr>x = 3, y = 4\<rparr>,
                 currentDir = RIGHT, requestedDir = RIGHT\<rparr>\<rparr>
     = Some \<lparr>app = \<lparr>gameStatus = PLAYING, currentDirection = RIGHT, score = 1\<rparr>,
             game = \<lparr>snake = [\<lparr>x = 16, y = 15\<rparr>, \<lparr>x = 15, y = 15\<rparr>], food = \<lparr>x = 3, y = 4\<rparr>,
                     currentDir = RIGHT, requestedDir = RIGHT\<rparr>\<rparr>"
proof -
  let ?rnd = "\<lambda>i::nat. if i = 0 then \<lparr>x = 15, y = 15\<rparr> else \<lparr>x = 3, y = 4\<rparr>"
  let ?s = "\<lparr>app = \<lparr>gameStatus = PLAYING, currentDirection = RIGHT, score = 0\<rparr>,
         game = \<lparr>snake = [\<lparr>x = 14, y = 15\<rparr>], food = \<lparr>x = 15, y = 15\<rparr>,
                 currentDir = RIGHT, requestedDir = RIGHT\<rparr>\<rparr>"
  let ?t = "\<lparr>app = \<lparr>gameStatus = PLAYING, currentDirection = RIGHT, score = 1\<rparr>,
         game = \<lparr>snake = [\<lparr>x = 15, y = 15\<rparr>, \<lparr>x = 14, y = 15\<rparr>], food = \<lparr>x = 3, y = 4\<rparr>,
                 currentDir = RIGHT, requestedDir = RIGHT\<rparr>\<rparr>"
  have gf: "generateFood ?rnd 0 [\<lparr>x = 15, y = 15\<rparr>, \<lparr>x = 14, y = 15\<rparr>] = Some \<lparr>x = 3, y = 4\<rparr>"
    by (subst generateFood.simps, simp add: onSegment_def, subst generateFood.simps,
        simp add: onSegment_def)
  have hyp1: "foodInv (game ?s) \<and> x \<lparr>x = 15, y = 15\<rparr> = x (food (game ?s))
      \<and> y \<lparr>x = 15, y = 15\<rparr> = y (food (game ?s))
      \<and> (\<exists>k. \<not> onSegment (?rnd k) (\<lparr>x = 15, y = 15\<rparr> # snake (game ?s)))"
  proof -
    have "\<not> onSegment (?rnd 1) (\<lparr>x = 15, y = 15\<rparr> # snake (game ?s))"
      by (simp add: onSegment_def)
    then have "\<exists>k. \<not> onSegment (?rnd k) (\<lparr>x = 15, y = 15\<rparr> # snake (game ?s))" by (rule exI)
    then show ?thesis by (simp add: foodInv_def inGrid_def GRID_SIZE_def onSegment_def)
  qed
  have e: "step (Tick ?rnd) ?s = Some ?t"
    using tick_food[of ?s "\<lparr>x = 14, y = 15\<rparr>" "[]" "\<lparr>x = 15, y = 15\<rparr>" ?rnd] hyp1
    by (simp add: model_defs gf)
  have hyp2: "0 \<le> x \<lparr>x = 16, y = 15\<rparr> \<and> x \<lparr>x = 16, y = 15\<rparr> < GRID_SIZE
      \<and> 0 \<le> y \<lparr>x = 16, y = 15\<rparr> \<and> y \<lparr>x = 16, y = 15\<rparr> < GRID_SIZE
      \<and> \<not> onSegment \<lparr>x = 16, y = 15\<rparr> (snake (game ?t))
      \<and> \<not> (x \<lparr>x = 16, y = 15\<rparr> = x (food (game ?t)) \<and> y \<lparr>x = 16, y = 15\<rparr> = y (food (game ?t)))"
    by (simp add: GRID_SIZE_def onSegment_def)
  have m: "step (Tick (\<lambda>i. \<lparr>x = 3, y = 4\<rparr>)) ?t
     = Some \<lparr>app = \<lparr>gameStatus = PLAYING, currentDirection = RIGHT, score = 1\<rparr>,
             game = \<lparr>snake = [\<lparr>x = 16, y = 15\<rparr>, \<lparr>x = 15, y = 15\<rparr>], food = \<lparr>x = 3, y = 4\<rparr>,
                     currentDir = RIGHT, requestedDir = RIGHT\<rparr>\<rparr>"
    using tick_food[of ?t "\<lparr>x = 15, y = 15\<rparr>" "[\<lparr>x = 14, y = 15\<rparr>]" "\<lparr>x = 16, y = 15\<rparr>"
        "\<lambda>i. \<lparr>x = 3, y = 4\<rparr>"] hyp2
    by (simp add: model_defs)
  from e m show ?thesis by simp
qed

section \<open>Control actions\<close>

text \<open>
  Claim C2. The run of the App that the claim fails on: \<^verbatim>\<open>START\<close>, then ten ticks, which
  take the snake from (10,10) into the right wall, so the game is over with the snake
  at (19,10). \<^verbatim>\<open>RESTART\<close> then gives the status \<^verbatim>\<open>PLAYING\<close> without passing through
  \<^verbatim>\<open>IDLE\<close>, and the reset effect, which tests the status for \<^verbatim>\<open>IDLE\<close>, does nothing:
  the snake is still the segment (19,10), not (10,10). The next tick moves the head
  to (20,10) and the game is over again.
\<close>

theorem restart_keeps_snake:
  "run (Action IDLE START # replicate 10 (Tick (\<lambda>i. \<lparr>x = 0, y = 0\<rparr>))) init
     = Some \<lparr>app = \<lparr>gameStatus = GAME_OVER, currentDirection = RIGHT, score = 0\<rparr>,
             game = \<lparr>snake = [\<lparr>x = 19, y = 10\<rparr>], food = \<lparr>x = 15, y = 15\<rparr>,
                     currentDir = RIGHT, requestedDir = RIGHT\<rparr>\<rparr>
   \<and> step (Action IDLE RESTART)
        \<lparr>app = \<lparr>gameStatus = GAME_OVER, currentDirection = RIGHT, score = 0\<rparr>,
         game = \<lparr>snake = [\<lparr>x = 19, y = 10\<rparr>], food = \<lparr>x = 15, y = 15\<rparr>,
                 currentDir = RIGHT, requestedDir = RIGHT\<rparr>\<rparr>
     = Some \<lparr>app = \<lparr>gameStatus = PLAYING, currentDirection = RIGHT, score = 0\<rparr>,
             game = \<lparr>snake = [\<lparr>x = 19, y = 10\<rparr>], food = \<lparr>x = 15, y = 15\<rparr>,
                     currentDir = RIGHT, requestedDir = RIGHT\<rparr>\<rparr>
   \<and> step (Tick (\<lambda>i. \<lparr>x = 0, y = 0\<rparr>))
        \<lparr>app = \<lparr>gameStatus = PLAYING, currentDirection = RIGHT, score = 0\<rparr>,
         game = \<lparr>snake = [\<lparr>x = 19, y = 10\<rparr>], food = \<lparr>x = 15, y = 15\<rparr>,
                 currentDir = RIGHT, requestedDir = RIGHT\<rparr>\<rparr>
     = Some \<lparr>app = \<lparr>gameStatus = GAME_OVER, currentDirection = RIGHT, score = 0\<rparr>,
             game = \<lparr>snake = [\<lparr>x = 19, y = 10\<rparr>], food = \<lparr>x = 15, y = 15\<rparr>,
                     currentDir = RIGHT, requestedDir = RIGHT\<rparr>\<rparr>"
  by (simp add: model_defs numeral_eq_Suc)









text \<open>
  Claim C8. For \<^verbatim>\<open>STOP\<close> and \<^verbatim>\<open>PAUSE\<close> in any state, the status becomes \<^verbatim>\<open>PAUSED\<close>,
  and the segments of the snake, the food and the score are as before the action.
\<close>

theorem pause_frame:
  assumes "a = STOP \<or> a = PAUSE"
  shows "\<exists>s'. step (Action seen a) s = Some s'
       \<and> gameStatus (app s') = PAUSED
       \<and> snake (game s') = snake (game s)
       \<and> food (game s') = food (game s)
       \<and> score (app s') = score (app s)"
proof -
  let ?a = "handleControlAction seen a (app s)"
  have h: "gameStatus ?a = PAUSED" "score ?a = score (app s)"
    using assms by auto
  then show ?thesis
    by (simp add: render_not_idle syncDirEffect_frame)
qed

theorem pause_frame_witness:
  "(STOP = STOP \<or> STOP = PAUSE)
   \<and> step (Action PLAYING STOP)
        \<lparr>app = \<lparr>gameStatus = PLAYING, currentDirection = UP, score = 1\<rparr>,
         game = \<lparr>snake = [\<lparr>x = 9, y = 9\<rparr>, \<lparr>x = 9, y = 10\<rparr>], food = \<lparr>x = 15, y = 15\<rparr>,
                 currentDir = UP, requestedDir = UP\<rparr>\<rparr>
     = Some \<lparr>app = \<lparr>gameStatus = PAUSED, currentDirection = UP, score = 1\<rparr>,
             game = \<lparr>snake = [\<lparr>x = 9, y = 9\<rparr>, \<lparr>x = 9, y = 10\<rparr>], food = \<lparr>x = 15, y = 15\<rparr>,
                     currentDir = UP, requestedDir = UP\<rparr>\<rparr>"
proof -
  have a: "STOP = STOP \<or> STOP = PAUSE" by simp
  from pause_frame[OF a, of PLAYING
      "\<lparr>app = \<lparr>gameStatus = PLAYING, currentDirection = UP, score = 1\<rparr>,
         game = \<lparr>snake = [\<lparr>x = 9, y = 9\<rparr>, \<lparr>x = 9, y = 10\<rparr>], food = \<lparr>x = 15, y = 15\<rparr>,
                 currentDir = UP, requestedDir = UP\<rparr>\<rparr>"]
  show ?thesis by (simp add: model_defs)
qed

section \<open>The playback cursor\<close>

lemma startsOf_append: "startsOf (es @ fs) = startsOf es @ startsOf fs"
  by (induction es rule: startsOf.induct) simp_all

lemma handleAudio_cases:
  obtains (quiet) "snd (handleAudio now p svc) = []"
      "nextStartTime svc \<le> nextStartTime (fst (handleAudio now p svc))"
    | (start) c d where "outputAudioContext svc = Some c" "p = Some (Decoded d)"
      "snd (handleAudio now p svc) = [SourceStart (max (nextStartTime svc) now) d]"
      "nextStartTime (fst (handleAudio now p svc)) = max (nextStartTime svc) now + d"
  by (cases p; cases "outputAudioContext svc"; cases "the p")
     (auto simp: handleAudio_def Let_def)

lemma handleAll_starts:
  assumes "\<forall>m \<in> set ms. \<forall>d. snd m = Some (Decoded d) \<longrightarrow> 0 \<le> d"
  shows "(\<forall>p \<in> set (startsOf (snd (handleAll ms svc))). nextStartTime svc \<le> fst p \<and> 0 \<le> snd p)
       \<and> sorted_wrt (\<lambda>a b. fst a + snd a \<le> fst b) (startsOf (snd (handleAll ms svc)))"
  using assms
proof (induction ms arbitrary: svc)
  case Nil
  show ?case by simp
next
  case (Cons m ms)
  obtain svc1 es1 where h: "handleAudio (fst m) (snd m) svc = (svc1, es1)"
    by (cases "handleAudio (fst m) (snd m) svc")
  obtain svc2 es2 where r: "handleAll ms svc1 = (svc2, es2)"
    by (cases "handleAll ms svc1")
  have tot: "startsOf (snd (handleAll (m # ms) svc)) = startsOf es1 @ startsOf es2"
    by (simp add: h r startsOf_append)
  have IH: "(\<forall>p \<in> set (startsOf es2). nextStartTime svc1 \<le> fst p \<and> 0 \<le> snd p)
       \<and> sorted_wrt (\<lambda>a b. fst a + snd a \<le> fst b) (startsOf es2)"
    using Cons.IH[of svc1] Cons.prems r by simp
  show ?case
  proof (cases rule: handleAudio_cases[of "fst m" "snd m" svc])
    case quiet
    with h have es1: "es1 = []" and n1: "nextStartTime svc \<le> nextStartTime svc1" by simp_all
    have "\<forall>p \<in> set (startsOf es2). nextStartTime svc \<le> fst p \<and> 0 \<le> snd p"
      using IH n1 by fastforce
    then show ?thesis unfolding tot es1 using IH by simp
  next
    case (start c d)
    have d: "0 \<le> d" using Cons.prems start(2) by simp
    from start h have es1: "es1 = [SourceStart (max (nextStartTime svc) (fst m)) d]"
      and n1: "nextStartTime svc1 = max (nextStartTime svc) (fst m) + d" by simp_all
    have "\<forall>p \<in> set (startsOf es2). max (nextStartTime svc) (fst m) + d \<le> fst p"
      using IH n1 by simp
    moreover have "\<forall>p \<in> set (startsOf es2). nextStartTime svc \<le> fst p \<and> 0 \<le> snd p"
      using IH n1 d by fastforce
    ultimately show ?thesis unfolding tot es1 using IH d by simp
  qed
qed

text \<open>
  Claim C4. Messages with audio are handled one after the other, each with its own
  reading of the output clock, in any order of readings, and with durations that are
  not negative. The start times passed to \<^verbatim>\<open>source.start\<close> are non-decreasing, and
  every buffer ends (start plus duration) no later than any later buffer starts. A
  decoded buffer starts at the maximum of \<^verbatim>\<open>nextStartTime\<close> and the clock, and
  \<^verbatim>\<open>nextStartTime\<close> becomes that start plus the buffer's duration.
\<close>

theorem playback_schedule:
  assumes "\<forall>m \<in> set ms. \<forall>d. snd m = Some (Decoded d) \<longrightarrow> 0 \<le> d"
  shows "sorted (map fst (startsOf (snd (handleAll ms svc))))
       \<and> sorted_wrt (\<lambda>a b. fst a + snd a \<le> fst b) (startsOf (snd (handleAll ms svc)))
       \<and> (\<forall>c. outputAudioContext svc = Some c \<longrightarrow>
            handleAudio now (Some (Decoded dur)) svc =
              (svc\<lparr>nextStartTime := max (nextStartTime svc) now + dur,
                   sources := sources svc @ [(max (nextStartTime svc) now, dur)]\<rparr>,
               [SourceStart (max (nextStartTime svc) now) dur]))"
proof -
  let ?starts = "startsOf (snd (handleAll ms svc))"
  from handleAll_starts[OF assms, of svc]
  have pos: "\<forall>p \<in> set ?starts. 0 \<le> snd p"
    and gap: "sorted_wrt (\<lambda>a b. fst a + snd a \<le> fst b) ?starts" by simp_all
  have "sorted_wrt (\<lambda>a b. fst a \<le> fst b) ?starts"
  proof (rule sorted_wrt_mono_rel[OF _ gap])
    fix a b
    assume "a \<in> set ?starts" and "b \<in> set ?starts" and "fst a + snd a \<le> fst b"
    with pos show "fst a \<le> fst b" by fastforce
  qed
  then have "sorted (map fst ?starts)" by (simp add: sorted_map)
  moreover have "\<forall>c. outputAudioContext svc = Some c \<longrightarrow>
            handleAudio now (Some (Decoded dur)) svc =
              (svc\<lparr>nextStartTime := max (nextStartTime svc) now + dur,
                   sources := sources svc @ [(max (nextStartTime svc) now, dur)]\<rparr>,
               [SourceStart (max (nextStartTime svc) now) dur])"
    by (simp add: handleAudio_def Let_def)
  ultimately show ?thesis using gap by simp
qed


text \<open>
  Three buffers and one payload that fails to decode: the second buffer waits for the
  first, the third starts at the clock after a gap.
\<close>

theorem playback_schedule_witness:
  "snd (handleAll [(0, Some (Decoded 2)), (1, Some (Decoded 1)), (5, Some DecodeError),
                   (6, Some (Decoded 3))]
         \<lparr>inputAudioContext = Some 1, outputAudioContext = Some 2, mediaStream = Some [7],
          nextStartTime = 0, sources = [], session = Some 3\<rparr>)
     = [SourceStart 0 2, SourceStart 2 1, SourceStart 6 3]
   \<and> sorted (map fst [(0::real, 2::real), (2, 1), (6, 3)])
   \<and> sorted_wrt (\<lambda>a b. fst a + snd a \<le> fst b) [(0::real, 2::real), (2, 1), (6, 3)]"
proof -
  let ?ms = "[(0, Some (Decoded 2)), (1, Some (Decoded 1)), (5, Some DecodeError),
                   (6, Some (Decoded 3))]"
  let ?svc = "\<lparr>inputAudioContext = Some 1, outputAudioContext = Some 2, mediaStream = Some [7],
          nextStartTime = 0, sources = [], session = Some 3\<rparr>"
  have dur: "\<forall>m \<in> set ?ms. \<forall>d. snd m = Some (Decoded d) \<longrightarrow> 0 \<le> d" by simp
  have run: "snd (handleAll ?ms ?svc) = [SourceStart 0 2, SourceStart 2 1, SourceStart 6 3]"
    by (simp add: handleAudio_def Let_def)
  from playback_schedule[OF dur, of ?svc] run show ?thesis by simp
qed

section \<open>Teardown\<close>

lemma stop_handles:
  "inputAudioContext (fst (stop svc)) = None"
  "outputAudioContext (fst (stop svc)) = None"
  "mediaStream (fst (stop svc)) = None"
  "session (fst (stop svc)) = None"
  by (simp_all add: stop_def)

lemma stop_effects:
  "snd (stop svc) =
     StatusChange False
     # map TrackStop (case mediaStream svc of None \<Rightarrow> [] | Some tracks \<Rightarrow> tracks)
     @ map ContextClose (case inputAudioContext svc of None \<Rightarrow> [] | Some c \<Rightarrow> [c])
     @ map ContextClose (case outputAudioContext svc of None \<Rightarrow> [] | Some c \<Rightarrow> [c])"
  by (simp add: stop_def split: option.splits)

lemma stop_again: "stop (fst (stop svc)) = (fst (stop svc), [StatusChange False])"
  by (simp add: stop_def)

lemma stop_newService: "stop newService = (newService, [StatusChange False])"
  by (simp add: stop_def newService_def)

lemma stop_cursor:
  "nextStartTime (fst (stop svc)) = nextStartTime svc"
  "sources (fst (stop svc)) = sources svc"
  by (simp_all add: stop_def)

text \<open>
  Claim C9. \<^verbatim>\<open>stop()\<close> signals the disconnected status, stops every track, closes both
  contexts and nulls the two contexts, the stream and the session
  (\<open>stop_handles\<close>, \<open>stop_effects\<close>); a second call, or a call before any
  \<^verbatim>\<open>connect()\<close>, only signals the status again and changes nothing
  (\<open>stop_again\<close>, \<open>stop_newService\<close>). It does not touch \<^verbatim>\<open>nextStartTime\<close> nor
  \<^verbatim>\<open>sources\<close> (\<open>stop_cursor\<close>). Here a session plays a buffer of 2 seconds at clock 3
  and is stopped: the cursor is still 5 and the source still in the set. After a new
  \<^verbatim>\<open>connect()\<close>, whose output clock starts at 0, the first buffer is scheduled at 5.
\<close>

theorem stop_keeps_cursor:
  "connect 1 2 (Inr [7]) 3 newService
     = (\<lparr>inputAudioContext = Some 1, outputAudioContext = Some 2, mediaStream = Some [7],
         nextStartTime = 0, sources = [], session = Some 3\<rparr>, [])
   \<and> handleAudio 3 (Some (Decoded 2))
        \<lparr>inputAudioContext = Some 1, outputAudioContext = Some 2, mediaStream = Some [7],
         nextStartTime = 0, sources = [], session = Some 3\<rparr>
     = (\<lparr>inputAudioContext = Some 1, outputAudioContext = Some 2, mediaStream = Some [7],
         nextStartTime = 5, sources = [(3, 2)], session = Some 3\<rparr>, [SourceStart 3 2])
   \<and> stop \<lparr>inputAudioContext = Some 1, outputAudioContext = Some 2, mediaStream = Some [7],
           nextStartTime = 5, sources = [(3, 2)], session = Some 3\<rparr>
     = (\<lparr>inputAudioContext = None, outputAudioContext = None, mediaStream = None,
         nextStartTime = 5, sources = [(3, 2)], session = None\<rparr>,
        [StatusChange False, TrackStop 7, ContextClose 1, ContextClose 2])
   \<and> connect 4 5 (Inr [8]) 6
        \<lparr>inputAudioContext = None, outputAudioContext = None, mediaStream = None,
         nextStartTime = 5, sources = [(3, 2)], session = None\<rparr>
     = (\<lparr>inputAudioContext = Some 4, outputAudioContext = Some 5, mediaStream = Some [8],
         nextStartTime = 5, sources = [(3, 2)], session = Some 6\<rparr>, [])
   \<and> snd (handleAudio 0 (Some (Decoded 1))
        \<lparr>inputAudioContext = Some 4, outputAudioContext = Some 5, mediaStream = Some [8],
         nextStartTime = 5, sources = [(3, 2)], session = Some 6\<rparr>)
     = [SourceStart 5 1]"
  by (simp add: connect_def newService_def handleAudio_def stop_def Let_def)

end
